theory Spec2Isabelle
  imports Main "HOL-Library.Sublist"
begin

section \<open>Strings\<close>

text \<open>
  A JavaScript string is a sequence of code units. The model covers the strings whose code
  units lie in the range 0..255 (ASCII and the Latin-1 supplement) and writes them as
  Isabelle strings, one \<^typ>\<open>char\<close> for each code unit. On that range
  \<^verbatim>\<open>String.prototype.trim\<close> strips TAB, LF, VT, FF, CR, SPACE and NBSP from both ends, and
  \<^verbatim>\<open>String.prototype.toLowerCase\<close> adds 32 to the letters A..Z and to the Latin-1 capitals
  (192..222 without the multiplication sign 215).
\<close>

definition isWhiteSpace :: "char \<Rightarrow> bool" where
  "isWhiteSpace c = (of_char c \<in> {9, 10, 11, 12, 13, 32, 160 :: nat})"

definition trim :: "string \<Rightarrow> string" where
  "trim s = rev (dropWhile isWhiteSpace (rev (dropWhile isWhiteSpace s)))"

definition toLowerChar :: "char \<Rightarrow> char" where
  "toLowerChar c =
     (let n = (of_char c :: nat)
      in if (65 \<le> n \<and> n \<le> 90) \<or> (192 \<le> n \<and> n \<le> 222 \<and> n \<noteq> 215)
         then char_of (n + 32) else c)"

definition toLowerCase :: "string \<Rightarrow> string" where
  "toLowerCase s = map toLowerChar s"

text \<open>
  \<^verbatim>\<open>s.includes(q)\<close> searches \<^verbatim>\<open>q\<close> at every position of \<^verbatim>\<open>s\<close>, from the first one on.
\<close>

fun includes_str :: "string \<Rightarrow> string \<Rightarrow> bool" where
  "includes_str [] q = (q = [])"
| "includes_str (c # cs) q = (prefix q (c # cs) \<or> includes_str cs q)"

section \<open>The suggestion loader (app/routes/api-suggestions.tsx)\<close>

record Suggestion =
  id_of :: string
  value_of :: string

definition fruits :: "Suggestion list" where
  "fruits =
    [\<lparr>id_of = ''apple'', value_of = ''Apple''\<rparr>,
     \<lparr>id_of = ''banana'', value_of = ''Banana''\<rparr>,
     \<lparr>id_of = ''blackberry'', value_of = ''Blackberry''\<rparr>,
     \<lparr>id_of = ''blueberry'', value_of = ''Blueberry''\<rparr>,
     \<lparr>id_of = ''dragonfruit'', value_of = ''Dragonfruit''\<rparr>,
     \<lparr>id_of = ''grapefruit'', value_of = ''Grapefruit''\<rparr>,
     \<lparr>id_of = ''kiwi'', value_of = ''Kiwi''\<rparr>,
     \<lparr>id_of = ''lemon'', value_of = ''Lemon''\<rparr>,
     \<lparr>id_of = ''lime'', value_of = ''Lime''\<rparr>,
     \<lparr>id_of = ''lychee'', value_of = ''Lychee''\<rparr>,
     \<lparr>id_of = ''mango'', value_of = ''Mango''\<rparr>,
     \<lparr>id_of = ''nectarine'', value_of = ''Nectarine''\<rparr>,
     \<lparr>id_of = ''orange'', value_of = ''Orange''\<rparr>,
     \<lparr>id_of = ''papaya'', value_of = ''Papaya''\<rparr>,
     \<lparr>id_of = ''passionfruit'', value_of = ''Passionfruit''\<rparr>,
     \<lparr>id_of = ''peach'', value_of = ''Peach''\<rparr>,
     \<lparr>id_of = ''pineapple'', value_of = ''Pineapple''\<rparr>,
     \<lparr>id_of = ''raspberry'', value_of = ''Raspberry''\<rparr>,
     \<lparr>id_of = ''strawberry'', value_of = ''Strawberry''\<rparr>,
     \<lparr>id_of = ''watermelon'', value_of = ''Watermelon''\<rparr>]"

text \<open>
  The response of the loader: its status and the array its JSON body denotes (the body
  \<^verbatim>\<open>"[]"\<close> of the first return is the JSON text of the empty array). The argument is the
  result of \<^verbatim>\<open>url.searchParams.get("q")\<close>: \<^term>\<open>None\<close> when the parameter is missing.
\<close>

record Response =
  status :: nat
  payload :: "Suggestion list"

definition loader :: "string option \<Rightarrow> Response" where
  "loader q =
     (let query = (case q of None \<Rightarrow> [] | Some v \<Rightarrow> toLowerCase (trim v))
      in if query = [] then \<lparr>status = 200, payload = []\<rparr>
         else \<lparr>status = 200,
               payload = take 10 (filter (\<lambda>fruit. includes_str (toLowerCase (value_of fruit)) query) fruits)\<rparr>)"

section \<open>The typeahead widget (app/components/type-ahead.tsx)\<close>

text \<open>
  The state of one mounted \<^verbatim>\<open>TypeAhead\<close>: the three \<^verbatim>\<open>useState\<close> cells, the field
  \<^verbatim>\<open>fetcher.data\<close> (\<^term>\<open>None\<close> is \<^verbatim>\<open>undefined\<close>), and what the component hands to its
  environment: the timeouts it has scheduled, the focus of its input element, the loads it
  has asked the fetcher for and the calls of \<^verbatim>\<open>onSelect\<close> it has made. Time is a clock in
  milliseconds; a timeout is kept by the time it is due.

  \<^item> \<open>dataDep\<close> is the value \<^verbatim>\<open>fetcher.data\<close> had in the dependency array of the effect of
    lines 51-53 at the last render;
  \<^item> \<open>debounce\<close> is the pending timeout of lines 41-43 with the query text its closure
    holds;
  \<^item> \<open>blurTimers\<close> are the pending timeouts of the \<^verbatim>\<open>onBlur\<close> handler (line 125);
  \<^item> \<open>requests\<close> lists the \<^verbatim>\<open>q\<close> parameter of every \<^verbatim>\<open>fetcher.load\<close>, as the loader
    decodes it from the URL (\<^verbatim>\<open>encodeURIComponent\<close> followed by the decoding of the URL is
    the identity);
  \<^item> \<open>selected\<close> lists the argument of every call \<^verbatim>\<open>onSelect?.(suggestion)\<close>.
\<close>

record widget =
  isFocused :: bool
  query :: string
  selectedIndex :: int
  data :: "Suggestion list option"
  dataDep :: "Suggestion list option"
  debounce :: "(nat \<times> string) option"
  blurTimers :: "nat list"
  inputFocused :: bool
  now :: nat
  requests :: "string list"
  selected :: "Suggestion list"

text \<open>
  The state after mounting: the initial values of the \<^verbatim>\<open>useState\<close> cells; the two effects
  have run once, the first one taking its early return on the empty query.
\<close>

definition init :: widget where
  "init = \<lparr>isFocused = False, query = [], selectedIndex = - 1, data = None, dataDep = None,
            debounce = None, blurTimers = [], inputFocused = False, now = 0, requests = [],
            selected = []\<rparr>"

text \<open>\<^verbatim>\<open>fetcher.data\<close> read as a list: \<^verbatim>\<open>fetcher.data?.length\<close> is falsy exactly when it is empty.\<close>

definition results :: "widget \<Rightarrow> Suggestion list" where
  "results s = (case data s of None \<Rightarrow> [] | Some rs \<Rightarrow> rs)"

subsection \<open>The effects\<close>

text \<open>
  Lines 35-46, with the cleanup \<^verbatim>\<open>clearTimeout(timeout)\<close> that the previous run returned
  (clearing a timeout that has fired, or none, changes nothing). The assignment
  \<^verbatim>\<open>fetcher.data = undefined\<close> writes a field of the fetcher object: it is no state update.
\<close>

definition debounceEffect :: "widget \<Rightarrow> widget" where
  "debounceEffect s =
     (let s1 = s\<lparr>debounce := None\<rparr>
      in if trim (query s1) = [] then s1\<lparr>data := None\<rparr>
         else s1\<lparr>debounce := Some (now s1 + 300, query s1)\<rparr>)"

text \<open>Lines 51-53.\<close>

definition resetEffect :: "widget \<Rightarrow> widget" where
  "resetEffect s = s\<lparr>selectedIndex := - 1\<rparr>"

text \<open>
  One render with its effects, as React runs them. The dependency arrays are built while
  the component renders, so \<^verbatim>\<open>[fetcher.data]\<close> holds the value of the field before the
  effects of this render run; an effect runs when its array differs from the one of the
  previous render, the effects in the order of their declaration.
\<close>

definition renderPass :: "bool \<Rightarrow> widget \<Rightarrow> widget" where
  "renderPass queryChanged s =
     (let dataChanged = (data s \<noteq> dataDep s);
          s1 = s\<lparr>dataDep := data s\<rparr>;
          s2 = (if queryChanged then debounceEffect s1 else s1)
      in if dataChanged then resetEffect s2 else s2)"

text \<open>
  What follows an event handler: \<open>old\<close> is the state before the handler, \<open>new\<close> the state
  with the handler's updates. React renders again only when a state cell has changed; when
  the reset effect changes \<^verbatim>\<open>selectedIndex\<close>, that is a state update of its own and the
  component renders once more (the second reset leaves the cell as it is).
\<close>

definition commit :: "widget \<Rightarrow> widget \<Rightarrow> widget" where
  "commit old new =
     (if isFocused new = isFocused old \<and> query new = query old
          \<and> selectedIndex new = selectedIndex old
      then new
      else let s1 = renderPass (query new \<noteq> query old) new
           in if selectedIndex s1 \<noteq> selectedIndex new then renderPass False s1 else s1)"

subsection \<open>The handlers\<close>

text \<open>Lines 61-66.\<close>

definition handleSelect :: "Suggestion \<Rightarrow> widget \<Rightarrow> widget" where
  "handleSelect suggestion s =
     s\<lparr>query := value_of suggestion, isFocused := False, selectedIndex := - 1,
       selected := selected s @ [suggestion]\<rparr>"

text \<open>
  \<^verbatim>\<open>inputRef.current?.blur()\<close>: an input that has the focus loses it, and its \<^verbatim>\<open>onBlur\<close>
  handler (line 125) schedules \<^verbatim>\<open>setIsFocused(false)\<close> in 200ms.
\<close>

definition blurInput :: "widget \<Rightarrow> widget" where
  "blurInput s =
     (if inputFocused s
      then s\<lparr>inputFocused := False, blurTimers := blurTimers s @ [now s + 200]\<rparr>
      else s)"

text \<open>
  Lines 78-112. The result is the state with the handler's updates and whether
  \<^verbatim>\<open>event.preventDefault()\<close> was called. \<^verbatim>\<open>fetcher.data[selectedIndex]\<close> is \<^verbatim>\<open>undefined\<close> for
  an index past the end, and \<^verbatim>\<open>handleSelect\<close> then throws on \<^verbatim>\<open>suggestion.value\<close>.
\<close>

datatype error = TypeError

definition handleKeyDown :: "string \<Rightarrow> widget \<Rightarrow> error + widget \<times> bool" where
  "handleKeyDown key s =
     (if trim (query s) = [] \<or> results s = [] then Inr (s, False)
      else if key = ''ArrowDown'' then
        Inr (s\<lparr>selectedIndex :=
                 (if selectedIndex s < int (length (results s)) - 1 then selectedIndex s + 1
                  else selectedIndex s)\<rparr>, True)
      else if key = ''ArrowUp'' then
        Inr (s\<lparr>selectedIndex :=
                 (if selectedIndex s > 0 then selectedIndex s - 1 else selectedIndex s)\<rparr>, True)
      else if key = ''Enter'' then
        (if selectedIndex s \<ge> 0 then
           (if selectedIndex s < int (length (results s))
            then Inr (blurInput (handleSelect (results s ! nat (selectedIndex s)) s), True)
            else Inl TypeError)
         else if length (results s) > 0 then
           Inr (blurInput (handleSelect (results s ! 0) s), True)
         else Inr (blurInput s, True))
      else if key = ''Escape'' then
        Inr (blurInput (s\<lparr>isFocused := False, selectedIndex := - 1\<rparr>), True)
      else Inr (s, False))"

text \<open>A key pressed in the input: the handler, then the render its updates cause.\<close>

definition pressKey :: "string \<Rightarrow> widget \<Rightarrow> error + widget \<times> bool" where
  "pressKey key s =
     (case handleKeyDown key s of
        Inl e \<Rightarrow> Inl e
      | Inr (s', prevented) \<Rightarrow> Inr (commit s s', prevented))"

text \<open>Line 123 and line 124.\<close>

definition onChange :: "string \<Rightarrow> widget \<Rightarrow> widget" where
  "onChange v s = commit s (s\<lparr>query := v\<rparr>)"

definition onFocus :: "widget \<Rightarrow> widget" where
  "onFocus s = commit s (s\<lparr>inputFocused := True, isFocused := True\<rparr>)"

text \<open>Lines 130 and 134: when the dropdown is rendered.\<close>

definition dropdownVisible :: "widget \<Rightarrow> bool" where
  "dropdownVisible s = (isFocused s \<and> trim (query s) \<noteq> [] \<and> results s \<noteq> [])"

text \<open>Line 143: a click on entry \<open>i\<close> of the rendered list.\<close>

definition clickEntry :: "nat \<Rightarrow> widget \<Rightarrow> widget" where
  "clickEntry i s =
     (if dropdownVisible s \<and> i < length (results s)
      then commit s (handleSelect (results s ! i) s) else s)"

subsection \<open>The environment: timers and responses\<close>

text \<open>
  The fetcher is React Router's. The model keeps of it the field \<^verbatim>\<open>fetcher.data\<close> and the
  loads the widget has asked for; it does not tie a response to a request, so a response
  may hold any list and arrive at any moment, which covers whatever order and content the
  library delivers. \<^verbatim>\<open>fetcher.state\<close> is not kept: the model lets the user click an entry
  whenever the dropdown is rendered, also while a load is under way.

  A response of the fetcher: \<^verbatim>\<open>fetcher.data\<close> is a new array, the component renders, and the
  reset effect sees a dependency that differs from the one of the previous render.
\<close>

definition respond :: "Suggestion list \<Rightarrow> widget \<Rightarrow> widget" where
  "respond rs s = resetEffect (s\<lparr>data := Some rs, dataDep := Some rs\<rparr>)"

text \<open>The timeout of line 41 fires when it is due: line 42.\<close>

definition fireDebounce :: "widget \<Rightarrow> widget" where
  "fireDebounce s =
     (case debounce s of
        None \<Rightarrow> s
      | Some (due, q) \<Rightarrow>
          if due \<le> now s then s\<lparr>debounce := None, requests := requests s @ [q]\<rparr> else s)"

text \<open>The timeouts of line 125 that are due fire: \<^verbatim>\<open>setIsFocused(false)\<close>, and they are gone.\<close>

definition fireBlurTimers :: "widget \<Rightarrow> widget" where
  "fireBlurTimers s =
     (if list_ex (\<lambda>t. t \<le> now s) (blurTimers s)
      then let s1 = s\<lparr>blurTimers := filter (\<lambda>t. now s < t) (blurTimers s)\<rparr>
           in commit s1 (s1\<lparr>isFocused := False\<rparr>)
      else s)"

text \<open>
  \<open>d\<close> milliseconds pass with no other event: the clock moves and the timeouts that are due
  fire (the two kinds write different fields, so their order does not matter).
\<close>

definition advance :: "nat \<Rightarrow> widget \<Rightarrow> widget" where
  "advance d s = fireBlurTimers (fireDebounce (s\<lparr>now := now s + d\<rparr>))"

subsection \<open>Runs\<close>

text \<open>
  The events of a session, each at the current time of the clock. A key whose handler
  throws leaves the state as it was.
\<close>

datatype event =
  Change string | KeyDown string | Focus | Blur | Click nat | Advance nat
  | Respond "Suggestion list"

fun step :: "event \<Rightarrow> widget \<Rightarrow> widget" where
  "step (Change v) s = onChange v s"
| "step (KeyDown k) s = (case pressKey k s of Inl e \<Rightarrow> s | Inr (s', prevented) \<Rightarrow> s')"
| "step Focus s = onFocus s"
| "step Blur s = blurInput s"
| "step (Click i) s = clickEntry i s"
| "step (Advance d) s = advance d s"
| "step (Respond rs) s = respond rs s"

fun run :: "event list \<Rightarrow> widget \<Rightarrow> widget" where
  "run [] s = s"
| "run (e # es) s = run es (step e s)"

inductive reachable :: "widget \<Rightarrow> bool" where
  reachable_init: "reachable init"
| reachable_step: "reachable s \<Longrightarrow> reachable (step e s)"

text \<open>
  Keystrokes: each entry is the time since the previous keystroke and the text the input
  holds after this one.
\<close>

fun typing :: "(nat \<times> string) list \<Rightarrow> widget \<Rightarrow> widget" where
  "typing [] s = s"
| "typing ((gap, v) # ks) s = typing ks (onChange v (advance gap s))"

text \<open>Every text of the list differs from the one before it, the first one from \<open>q\<close>.\<close>

fun changing :: "string \<Rightarrow> string list \<Rightarrow> bool" where
  "changing q [] = True"
| "changing q (v # vs) = (v \<noteq> q \<and> changing v vs)"

subsection \<open>The highlight and the stored results\<close>

text \<open>
  What every state of a run keeps: the highlight is never below \<open>-1\<close>, and while results are
  stored, the last render has seen them and the highlight is below their length.
\<close>

definition highlightOk :: "widget \<Rightarrow> bool" where
  "highlightOk s =
     (- 1 \<le> selectedIndex s
      \<and> (case data s of
           None \<Rightarrow> True
         | Some rs \<Rightarrow> dataDep s = Some rs \<and> selectedIndex s < int (length rs)))"

subsection \<open>Sessions used as examples\<close>

text \<open>
  The user focuses the input and types \<^verbatim>\<open>an\<close>; 300ms later the request goes out and the
  response arrives: Banana, Mango and Orange.
\<close>

definition awaiting_response :: widget where
  "awaiting_response = run [Focus, Change ''an'', Advance 300] init"

definition three_results :: widget where
  "three_results = run [Respond (payload (loader (Some ''an'')))] awaiting_response"

text \<open>Then ArrowDown twice.\<close>

definition highlighted_second :: widget where
  "highlighted_second = run [KeyDown ''ArrowDown'', KeyDown ''ArrowDown''] three_results"

text \<open>
  The user types \<^verbatim>\<open>le\<close>, the request goes out, and the user empties the input (or leaves two
  spaces in it) before the response of the request arrives: Apple, Lemon and Pineapple.
\<close>

definition stale_results :: widget where
  "stale_results =
     run [Focus, Change ''le'', Advance 300, Change [],
          Respond (payload (loader (Some ''le'')))] init"

definition blank_query :: widget where
  "blank_query =
     run [Focus, Change ''le'', Advance 300, Change ''  '',
          Respond (payload (loader (Some ''le'')))] init"

text \<open>A query no fruit matches.\<close>

definition no_matches :: widget where
  "no_matches =
     run [Focus, Change ''zz'', Advance 300, Respond (payload (loader (Some ''zz'')))] init"

text \<open>Three results on display, and the user has typed one more letter 100ms ago.\<close>

definition pending_request :: widget where
  "pending_request = run [Change ''ana'', Advance 100] three_results"

text \<open>Three results, the first one highlighted, and the user empties the input.\<close>

definition cleared_with_highlight :: widget where
  "cleared_with_highlight = run [KeyDown ''ArrowDown'', Change []] three_results"

section \<open>The loader: substring search and the two returns\<close>

lemma includes_str_sublist: "includes_str s q \<longleftrightarrow> sublist q s"
  by (induction s) (simp_all add: sublist_Cons_right)

lemma includes_str_substring: "includes_str s q \<longleftrightarrow> (\<exists>pre post. s = pre @ q @ post)"
  by (simp add: includes_str_sublist sublist_def)

lemma subseq_take_filter: "subseq (take n (filter P xs)) xs"
proof -
  have "subseq (take n (filter P xs)) (filter P xs)"
    by (metis append_take_drop_id prefix_def prefix_imp_subseq)
  then show ?thesis
    using subseq_filter_left subseq_order.order_trans by blast
qed

text \<open>
  C1, as amended. For every query whose trimmed, lower-cased form is not empty, the loader
  returns the entries of \<^const>\<open>fruits\<close> whose lower-cased value contains the trimmed,
  lower-cased query as a substring (\<^const>\<open>sublist\<close>: some text before it and some text
  after it), in the order of the source list, cut to the first 10 of them; the result is a
  subsequence of the source list, has at most 10 entries and comes with status 200. On
  every request, this kind or not, the loader returns at most 10 entries.
\<close>

theorem loader_matches:
  assumes "toLowerCase (trim v) \<noteq> []"
  shows "payload (loader (Some v)) =
           take 10 (filter (\<lambda>f. sublist (toLowerCase (trim v)) (toLowerCase (value_of f))) fruits)
         \<and> subseq (payload (loader (Some v))) fruits
         \<and> length (payload (loader (Some v))) \<le> 10
         \<and> status (loader (Some v)) = 200
         \<and> (\<forall>r. length (payload (loader r)) \<le> 10)"
  using assms by (simp add: loader_def Let_def includes_str_sublist subseq_take_filter)

theorem loader_matches_witness:
  "toLowerCase (trim ''ap '') \<noteq> []
   \<and> payload (loader (Some ''ap '')) =
       take 10 (filter (\<lambda>f. sublist (toLowerCase (trim ''ap '')) (toLowerCase (value_of f))) fruits)
   \<and> payload (loader (Some ''ap '')) =
       [\<lparr>id_of = ''apple'', value_of = ''Apple''\<rparr>,
        \<lparr>id_of = ''grapefruit'', value_of = ''Grapefruit''\<rparr>,
        \<lparr>id_of = ''papaya'', value_of = ''Papaya''\<rparr>,
        \<lparr>id_of = ''pineapple'', value_of = ''Pineapple''\<rparr>]"
proof -
  have h: "toLowerCase (trim ''ap '') \<noteq> []"
    by code_simp
  have e: "payload (loader (Some ''ap '')) =
       [\<lparr>id_of = ''apple'', value_of = ''Apple''\<rparr>,
        \<lparr>id_of = ''grapefruit'', value_of = ''Grapefruit''\<rparr>,
        \<lparr>id_of = ''papaya'', value_of = ''Papaya''\<rparr>,
        \<lparr>id_of = ''pineapple'', value_of = ''Pineapple''\<rparr>]"
    by code_simp
  from loader_matches [OF h] h e show ?thesis
    by blast
qed

text \<open>
  C1 as it is written compares with the lower-cased query, not with its trimmed form. The
  widget sends the input as typed, and for the query \<^verbatim>\<open>"ap "\<close> (a trailing space) the loader
  returns Apple first, whose lower-cased value does not contain \<^verbatim>\<open>"ap "\<close>.
\<close>

theorem loader_untrimmed_counterexample:
  "toLowerCase (trim ''ap '') \<noteq> []
   \<and> payload (loader (Some ''ap '')) \<noteq> []
   \<and> hd (payload (loader (Some ''ap ''))) = \<lparr>id_of = ''apple'', value_of = ''Apple''\<rparr>
   \<and> \<not> sublist (toLowerCase ''ap '') (toLowerCase ''Apple'')"
  by code_simp

text \<open>
  C2. When the parameter \<^verbatim>\<open>q\<close> is missing, or its trimmed, lower-cased form is empty (the
  empty string, or white space only), the loader returns the empty sequence with status
  200; and the loader is a total function whose status is 200 on every request, so no input
  makes it signal an error.
\<close>

theorem loader_empty_query:
  assumes "q = None \<or> (\<exists>v. q = Some v \<and> toLowerCase (trim v) = [])"
  shows "loader q = \<lparr>status = 200, payload = []\<rparr> \<and> (\<forall>r. status (loader r) = 200)"
  using assms by (auto simp: loader_def Let_def split: option.splits)

theorem loader_empty_query_witness:
  "loader None = \<lparr>status = 200, payload = []\<rparr>
   \<and> loader (Some []) = \<lparr>status = 200, payload = []\<rparr>
   \<and> toLowerCase (trim ''  '') = []
   \<and> loader (Some ''  '') = \<lparr>status = 200, payload = []\<rparr>"
proof -
  have e: "toLowerCase (trim []) = []"
    by code_simp
  have w: "toLowerCase (trim ''  '') = []"
    by code_simp
  from loader_empty_query [of None] loader_empty_query [of "Some []"]
    loader_empty_query [of "Some ''  ''"] e w
  show ?thesis
    by simp
qed

section \<open>The widget: what a render keeps\<close>

lemmas effect_defs = commit_def renderPass_def debounceEffect_def resetEffect_def Let_def

lemma commit_query: "query (commit old new) = query new"
  by (simp add: effect_defs)

lemma commit_isFocused: "isFocused (commit old new) = isFocused new"
  by (simp add: effect_defs)

lemma commit_selected: "selected (commit old new) = selected new"
  by (simp add: effect_defs)

lemma commit_inputFocused: "inputFocused (commit old new) = inputFocused new"
  by (simp add: effect_defs)

lemma commit_now: "now (commit old new) = now new"
  by (simp add: effect_defs)

lemma commit_requests: "requests (commit old new) = requests new"
  by (simp add: effect_defs)

lemma commit_blurTimers: "blurTimers (commit old new) = blurTimers new"
  by (simp add: effect_defs)

lemma commit_debounce:
  "debounce (commit old new) =
     (if query new \<noteq> query old
      then (if trim (query new) = [] then None else Some (now new + 300, query new))
      else debounce new)"
  by (simp add: effect_defs)

lemma commit_data:
  "data (commit old new) =
     (if query new \<noteq> query old \<and> trim (query new) = [] then None else data new)"
  by (simp add: effect_defs)

lemma commit_selectedIndex:
  "selectedIndex (commit old new) = selectedIndex new \<or> selectedIndex (commit old new) = - 1"
  by (simp add: effect_defs)

lemma commit_selectedIndex_none:
  "selectedIndex new = - 1 \<Longrightarrow> selectedIndex (commit old new) = - 1"
  by (simp add: effect_defs)

lemma commit_same: "commit s s = s"
  by (simp add: commit_def)

lemma commit_clean:
  "dataDep new = data new \<Longrightarrow> query new = query old \<Longrightarrow> commit old new = new"
  by (simp add: effect_defs)

lemmas commit_simps = commit_query commit_isFocused commit_selected commit_inputFocused
  commit_now commit_requests commit_blurTimers commit_debounce commit_data

section \<open>The key handler\<close>

lemma handle_guard:
  assumes "trim (query s) = [] \<or> data s = None \<or> data s = Some []"
  shows "handleKeyDown key s = Inr (s, False)"
proof -
  from assms have "trim (query s) = [] \<or> results s = []"
    by (auto simp: results_def)
  then show ?thesis
    unfolding handleKeyDown_def by (simp only: if_True)
qed

lemma handle_active:
  assumes "trim (query s) \<noteq> []" and "results s \<noteq> []"
  shows "handleKeyDown key s =
     (if key = ''ArrowDown'' then
        Inr (s\<lparr>selectedIndex :=
                 (if selectedIndex s < int (length (results s)) - 1 then selectedIndex s + 1
                  else selectedIndex s)\<rparr>, True)
      else if key = ''ArrowUp'' then
        Inr (s\<lparr>selectedIndex :=
                 (if selectedIndex s > 0 then selectedIndex s - 1 else selectedIndex s)\<rparr>, True)
      else if key = ''Enter'' then
        (if selectedIndex s \<ge> 0 then
           (if selectedIndex s < int (length (results s))
            then Inr (blurInput (handleSelect (results s ! nat (selectedIndex s)) s), True)
            else Inl TypeError)
         else if length (results s) > 0 then
           Inr (blurInput (handleSelect (results s ! 0) s), True)
         else Inr (blurInput s, True))
      else if key = ''Escape'' then
        Inr (blurInput (s\<lparr>isFocused := False, selectedIndex := - 1\<rparr>), True)
      else Inr (s, False))"
proof -
  from assms have g: "(trim (query s) = [] \<or> results s = []) = False"
    by simp
  show ?thesis
    unfolding handleKeyDown_def by (simp only: g if_False)
qed

lemma key_neq:
  "''ArrowUp'' \<noteq> ''ArrowDown''" "''Enter'' \<noteq> ''ArrowDown''" "''Enter'' \<noteq> ''ArrowUp''"
  "''Escape'' \<noteq> ''ArrowDown''" "''Escape'' \<noteq> ''ArrowUp''" "''Escape'' \<noteq> ''Enter''"
  by simp_all

lemma handle_ArrowDown:
  assumes "trim (query s) \<noteq> []" and "results s \<noteq> []"
  shows "handleKeyDown ''ArrowDown'' s =
        Inr (s\<lparr>selectedIndex :=
                 (if selectedIndex s < int (length (results s)) - 1 then selectedIndex s + 1
                  else selectedIndex s)\<rparr>, True)"
  by (simp only: handle_active [OF assms] simp_thms if_True)

lemma handle_ArrowUp:
  assumes "trim (query s) \<noteq> []" and "results s \<noteq> []"
  shows "handleKeyDown ''ArrowUp'' s =
        Inr (s\<lparr>selectedIndex :=
                 (if selectedIndex s > 0 then selectedIndex s - 1 else selectedIndex s)\<rparr>, True)"
  by (simp only: handle_active [OF assms] key_neq simp_thms if_True if_False)

lemma handle_Enter:
  assumes "trim (query s) \<noteq> []" and "results s \<noteq> []"
    and "selectedIndex s < int (length (results s))"
  shows "handleKeyDown ''Enter'' s =
     Inr (blurInput (handleSelect
            (if 0 \<le> selectedIndex s then results s ! nat (selectedIndex s) else results s ! 0) s),
          True)"
proof -
  have e: "handleKeyDown ''Enter'' s =
        (if selectedIndex s \<ge> 0 then
           (if selectedIndex s < int (length (results s))
            then Inr (blurInput (handleSelect (results s ! nat (selectedIndex s)) s), True)
            else Inl TypeError)
         else if length (results s) > 0 then
           Inr (blurInput (handleSelect (results s ! 0) s), True)
         else Inr (blurInput s, True))"
    by (simp only: handle_active [OF assms(1,2)] key_neq simp_thms if_True if_False)
  from assms(2) have "length (results s) > 0"
    by simp
  with assms(3) show ?thesis
    unfolding e by (cases "0 \<le> selectedIndex s") simp_all
qed

lemma handle_Escape:
  assumes "trim (query s) \<noteq> []" and "results s \<noteq> []"
  shows "handleKeyDown ''Escape'' s =
        Inr (blurInput (s\<lparr>isFocused := False, selectedIndex := - 1\<rparr>), True)"
  by (simp only: handle_active [OF assms] key_neq simp_thms if_True if_False)

lemma handleSelect_fields:
  "query (handleSelect g s) = value_of g" "\<not> isFocused (handleSelect g s)"
  "selectedIndex (handleSelect g s) = - 1" "selected (handleSelect g s) = selected s @ [g]"
  "data (handleSelect g s) = data s" "inputFocused (handleSelect g s) = inputFocused s"
  by (simp_all add: handleSelect_def)

lemma blurInput_fields:
  "query (blurInput s) = query s" "isFocused (blurInput s) = isFocused s"
  "selectedIndex (blurInput s) = selectedIndex s" "selected (blurInput s) = selected s"
  "data (blurInput s) = data s" "\<not> inputFocused (blurInput s)"
  "requests (blurInput s) = requests s" "debounce (blurInput s) = debounce s"
  "dataDep (blurInput s) = dataDep s" "now (blurInput s) = now s"
  by (simp_all add: blurInput_def)

lemma select_commit:
  "query (commit s (handleSelect g s)) = value_of g
   \<and> \<not> isFocused (commit s (handleSelect g s))
   \<and> \<not> dropdownVisible (commit s (handleSelect g s))
   \<and> selectedIndex (commit s (handleSelect g s)) = - 1
   \<and> selected (commit s (handleSelect g s)) = selected s @ [g]"
  by (simp add: commit_query commit_isFocused commit_selected commit_selectedIndex_none
      handleSelect_fields dropdownVisible_def)

lemma select_blur_commit:
  "query (commit s (blurInput (handleSelect g s))) = value_of g
   \<and> \<not> isFocused (commit s (blurInput (handleSelect g s)))
   \<and> \<not> dropdownVisible (commit s (blurInput (handleSelect g s)))
   \<and> selectedIndex (commit s (blurInput (handleSelect g s))) = - 1
   \<and> selected (commit s (blurInput (handleSelect g s))) = selected s @ [g]
   \<and> \<not> inputFocused (commit s (blurInput (handleSelect g s)))"
  by (simp add: commit_query commit_isFocused commit_selected commit_selectedIndex_none
      commit_inputFocused handleSelect_fields blurInput_fields dropdownVisible_def)

lemma step_ArrowDown:
  assumes "trim (query s) \<noteq> []" and "results s \<noteq> []" and "dataDep s = data s"
  shows "step (KeyDown ''ArrowDown'') s =
     s\<lparr>selectedIndex := (if selectedIndex s < int (length (results s)) - 1
                          then selectedIndex s + 1 else selectedIndex s)\<rparr>"
  using assms(3) by (simp add: pressKey_def handle_ArrowDown [OF assms(1,2)] commit_clean)

lemma pressKey_guard:
  assumes "trim (query s) = [] \<or> data s = None \<or> data s = Some []"
  shows "pressKey key s = Inr (s, False)"
  by (simp add: pressKey_def handle_guard [OF assms] commit_same)

section \<open>The example sessions, evaluated\<close>

lemma awaiting_response_eval:
  "awaiting_response =
     \<lparr>isFocused = True, query = ''an'', selectedIndex = - 1, data = None, dataDep = None,
      debounce = None, blurTimers = [], inputFocused = True, now = 300,
      requests = [''an''], selected = []\<rparr>"
  by code_simp

lemma loader_an:
  "payload (loader (Some ''an'')) =
     [\<lparr>id_of = ''banana'', value_of = ''Banana''\<rparr>,
      \<lparr>id_of = ''mango'', value_of = ''Mango''\<rparr>,
      \<lparr>id_of = ''orange'', value_of = ''Orange''\<rparr>]"
  by code_simp

lemma three_results_eval:
  "three_results =
     \<lparr>isFocused = True, query = ''an'', selectedIndex = - 1,
      data = Some [\<lparr>id_of = ''banana'', value_of = ''Banana''\<rparr>,
                   \<lparr>id_of = ''mango'', value_of = ''Mango''\<rparr>,
                   \<lparr>id_of = ''orange'', value_of = ''Orange''\<rparr>],
      dataDep = Some [\<lparr>id_of = ''banana'', value_of = ''Banana''\<rparr>,
                      \<lparr>id_of = ''mango'', value_of = ''Mango''\<rparr>,
                      \<lparr>id_of = ''orange'', value_of = ''Orange''\<rparr>],
      debounce = None, blurTimers = [], inputFocused = True, now = 300,
      requests = [''an''], selected = []\<rparr>"
  by code_simp

lemma highlighted_second_eval:
  "highlighted_second =
     \<lparr>isFocused = True, query = ''an'', selectedIndex = 1,
      data = Some [\<lparr>id_of = ''banana'', value_of = ''Banana''\<rparr>,
                   \<lparr>id_of = ''mango'', value_of = ''Mango''\<rparr>,
                   \<lparr>id_of = ''orange'', value_of = ''Orange''\<rparr>],
      dataDep = Some [\<lparr>id_of = ''banana'', value_of = ''Banana''\<rparr>,
                      \<lparr>id_of = ''mango'', value_of = ''Mango''\<rparr>,
                      \<lparr>id_of = ''orange'', value_of = ''Orange''\<rparr>],
      debounce = None, blurTimers = [], inputFocused = True, now = 300,
      requests = [''an''], selected = []\<rparr>"
  by code_simp

lemma stale_results_eval:
  "stale_results =
     \<lparr>isFocused = True, query = [], selectedIndex = - 1,
      data = Some [\<lparr>id_of = ''apple'', value_of = ''Apple''\<rparr>,
                   \<lparr>id_of = ''lemon'', value_of = ''Lemon''\<rparr>,
                   \<lparr>id_of = ''pineapple'', value_of = ''Pineapple''\<rparr>],
      dataDep = Some [\<lparr>id_of = ''apple'', value_of = ''Apple''\<rparr>,
                      \<lparr>id_of = ''lemon'', value_of = ''Lemon''\<rparr>,
                      \<lparr>id_of = ''pineapple'', value_of = ''Pineapple''\<rparr>],
      debounce = None, blurTimers = [], inputFocused = True, now = 300,
      requests = [''le''], selected = []\<rparr>"
  by code_simp

lemma blank_query_eval:
  "blank_query =
     \<lparr>isFocused = True, query = ''  '', selectedIndex = - 1,
      data = Some [\<lparr>id_of = ''apple'', value_of = ''Apple''\<rparr>,
                   \<lparr>id_of = ''lemon'', value_of = ''Lemon''\<rparr>,
                   \<lparr>id_of = ''pineapple'', value_of = ''Pineapple''\<rparr>],
      dataDep = Some [\<lparr>id_of = ''apple'', value_of = ''Apple''\<rparr>,
                      \<lparr>id_of = ''lemon'', value_of = ''Lemon''\<rparr>,
                      \<lparr>id_of = ''pineapple'', value_of = ''Pineapple''\<rparr>],
      debounce = None, blurTimers = [], inputFocused = True, now = 300,
      requests = [''le''], selected = []\<rparr>"
  by code_simp

lemma no_matches_eval:
  "no_matches =
     \<lparr>isFocused = True, query = ''zz'', selectedIndex = - 1, data = Some [],
      dataDep = Some [], debounce = None, blurTimers = [], inputFocused = True, now = 300,
      requests = [''zz''], selected = []\<rparr>"
  by code_simp

lemma pending_request_eval:
  "pending_request =
     \<lparr>isFocused = True, query = ''ana'', selectedIndex = - 1,
      data = Some [\<lparr>id_of = ''banana'', value_of = ''Banana''\<rparr>,
                   \<lparr>id_of = ''mango'', value_of = ''Mango''\<rparr>,
                   \<lparr>id_of = ''orange'', value_of = ''Orange''\<rparr>],
      dataDep = Some [\<lparr>id_of = ''banana'', value_of = ''Banana''\<rparr>,
                      \<lparr>id_of = ''mango'', value_of = ''Mango''\<rparr>,
                      \<lparr>id_of = ''orange'', value_of = ''Orange''\<rparr>],
      debounce = Some (600, ''ana''), blurTimers = [], inputFocused = True, now = 400,
      requests = [''an''], selected = []\<rparr>"
  by code_simp

lemma cleared_with_highlight_eval:
  "cleared_with_highlight =
     \<lparr>isFocused = True, query = [], selectedIndex = 0, data = None,
      dataDep = Some [\<lparr>id_of = ''banana'', value_of = ''Banana''\<rparr>,
                      \<lparr>id_of = ''mango'', value_of = ''Mango''\<rparr>,
                      \<lparr>id_of = ''orange'', value_of = ''Orange''\<rparr>],
      debounce = None, blurTimers = [], inputFocused = True, now = 300,
      requests = [''an''], selected = []\<rparr>"
  by code_simp

lemma trim_examples:
  "trim [] = []" "trim ''  '' = []" "trim ''an'' = ''an''" "trim ''zz'' = ''zz''"
  "trim ''ana'' = ''ana''"
  by (simp_all add: trim_def isWhiteSpace_def)

section \<open>The claims about the key handler\<close>

text \<open>
  C10. When the trimmed query text is empty, or no results are stored, or the stored list
  is empty, the key handler returns at its guard for every key: the state after the key is
  the state before it, in every field (the list of \<^verbatim>\<open>onSelect\<close> calls and the list of loads
  are fields of it), and \<^verbatim>\<open>preventDefault\<close> has not been called.
\<close>

theorem key_guard_noop:
  assumes "trim (query s) = [] \<or> data s = None \<or> data s = Some []"
  shows "handleKeyDown key s = Inr (s, False) \<and> pressKey key s = Inr (s, False)"
  using handle_guard [OF assms] pressKey_guard [OF assms] by simp

theorem key_guard_noop_witness:
  "data init = None
   \<and> pressKey ''Enter'' init = Inr (init, False)
   \<and> trim (query stale_results) = [] \<and> results stale_results \<noteq> []
   \<and> pressKey ''Enter'' stale_results = Inr (stale_results, False)
   \<and> data no_matches = Some [] \<and> trim (query no_matches) \<noteq> []
   \<and> pressKey ''ArrowDown'' no_matches = Inr (no_matches, False)"
proof -
  have a: "data init = None"
    by (simp add: init_def)
  have b: "trim (query stale_results) = []" "results stale_results \<noteq> []"
    by (simp_all add: stale_results_eval results_def trim_examples)
  have c: "data no_matches = Some []" "trim (query no_matches) \<noteq> []"
    by (simp_all add: no_matches_eval trim_examples)
  from a b c key_guard_noop [of init "''Enter''"] key_guard_noop [of stale_results "''Enter''"]
    key_guard_noop [of no_matches "''ArrowDown''"]
  show ?thesis
    by blast
qed

text \<open>
  C9, as amended. With a query text that is not empty after trimming and a non-empty
  results list, Escape closes the dropdown (\<^verbatim>\<open>isFocused\<close> is false, so the dropdown is not
  rendered), resets the highlight to \<open>-1\<close>, takes the focus from the input and suppresses the
  key's default; the query text, the stored results, the pending request and the calls made
  so far stay as they are.
\<close>

theorem escape_closes:
  assumes "trim (query s) \<noteq> []" and "results s \<noteq> []"
  shows "\<exists>s'. pressKey ''Escape'' s = Inr (s', True)
           \<and> \<not> isFocused s' \<and> \<not> dropdownVisible s' \<and> selectedIndex s' = - 1
           \<and> \<not> inputFocused s' \<and> query s' = query s \<and> data s' = data s
           \<and> selected s' = selected s \<and> requests s' = requests s \<and> debounce s' = debounce s"
proof -
  let ?h = "blurInput (s\<lparr>isFocused := False, selectedIndex := - 1\<rparr>)"
  have h: "\<not> isFocused ?h" "selectedIndex ?h = - 1" "\<not> inputFocused ?h" "query ?h = query s"
    "data ?h = data s" "selected ?h = selected s" "requests ?h = requests s" "debounce ?h = debounce s"
    by (simp_all add: blurInput_def)
  have p: "pressKey ''Escape'' s = Inr (commit s ?h, True)"
    by (simp add: pressKey_def handle_Escape [OF assms])
  from h show ?thesis
    unfolding p by (simp add: commit_simps commit_selectedIndex_none dropdownVisible_def)
qed

theorem escape_closes_witness:
  "trim (query highlighted_second) \<noteq> [] \<and> results highlighted_second \<noteq> []
   \<and> dropdownVisible highlighted_second \<and> selectedIndex highlighted_second = 1
   \<and> inputFocused highlighted_second
   \<and> (\<exists>s'. pressKey ''Escape'' highlighted_second = Inr (s', True)
           \<and> \<not> isFocused s' \<and> \<not> dropdownVisible s' \<and> selectedIndex s' = - 1
           \<and> \<not> inputFocused s' \<and> query s' = ''an'' \<and> data s' = data highlighted_second)"
proof -
  have h: "trim (query highlighted_second) \<noteq> []" "results highlighted_second \<noteq> []"
    by (simp_all add: highlighted_second_eval results_def trim_examples)
  have e: "dropdownVisible highlighted_second" "selectedIndex highlighted_second = 1"
    "inputFocused highlighted_second" "query highlighted_second = ''an''"
    by (simp_all add: highlighted_second_eval results_def trim_examples dropdownVisible_def)
  from escape_closes [OF h] obtain s' where
    "pressKey ''Escape'' highlighted_second = Inr (s', True)" "\<not> isFocused s'"
    "\<not> dropdownVisible s'" "selectedIndex s' = - 1" "\<not> inputFocused s'"
    "query s' = query highlighted_second" "data s' = data highlighted_second"
    by blast
  with e h show ?thesis
    by auto
qed

text \<open>
  C9 as it is written asks for a non-empty query text only. The guard of the handler trims
  the text: with two spaces in the input and the results of an earlier request stored,
  Escape returns at the guard, and the input keeps the focus.
\<close>

theorem escape_blank_counterexample:
  "query blank_query \<noteq> [] \<and> results blank_query \<noteq> []
   \<and> isFocused blank_query \<and> inputFocused blank_query
   \<and> pressKey ''Escape'' blank_query = Inr (blank_query, False)"
proof -
  have "trim (query blank_query) = []"
    by (simp add: blank_query_eval trim_examples)
  then have "pressKey ''Escape'' blank_query = Inr (blank_query, False)"
    by (simp add: pressKey_guard)
  then show ?thesis
    by (simp add: blank_query_eval results_def)
qed

text \<open>
  C4, as amended. With a query text that is not empty after trimming, a non-empty results
  list and a highlight that is none or an index of the list, Enter selects the entry at the
  highlight when it is set (at least 0), else the first entry. Selection by Enter and by a
  click on an entry of the rendered list is the one operation \<^const>\<open>handleSelect\<close>: after it
  the query text is the value of the selected entry, the dropdown is closed, the highlight
  is \<open>-1\<close>, and \<^verbatim>\<open>onSelect\<close> has been called once more, with the whole selected record. Enter
  also takes the focus from the input.
\<close>

theorem enter_selects:
  assumes "trim (query s) \<noteq> []" and "results s \<noteq> []"
    and "selectedIndex s < int (length (results s))"
  shows "let chosen = (if 0 \<le> selectedIndex s then results s ! nat (selectedIndex s)
                       else results s ! 0);
             s' = commit s (blurInput (handleSelect chosen s))
         in pressKey ''Enter'' s = Inr (s', True)
            \<and> query s' = value_of chosen \<and> \<not> isFocused s' \<and> \<not> dropdownVisible s'
            \<and> selectedIndex s' = - 1 \<and> selected s' = selected s @ [chosen]
            \<and> \<not> inputFocused s'
            \<and> (\<forall>i. dropdownVisible s \<and> i < length (results s) \<longrightarrow>
                  clickEntry i s = commit s (handleSelect (results s ! i) s)
                  \<and> query (clickEntry i s) = value_of (results s ! i)
                  \<and> \<not> isFocused (clickEntry i s) \<and> \<not> dropdownVisible (clickEntry i s)
                  \<and> selectedIndex (clickEntry i s) = - 1
                  \<and> selected (clickEntry i s) = selected s @ [results s ! i])"
proof -
  have p: "pressKey ''Enter'' s =
      Inr (commit s (blurInput (handleSelect
        (if 0 \<le> selectedIndex s then results s ! nat (selectedIndex s) else results s ! 0) s)), True)"
    by (simp add: pressKey_def handle_Enter [OF assms])
  have c: "dropdownVisible s \<and> i < length (results s) \<Longrightarrow>
      clickEntry i s = commit s (handleSelect (results s ! i) s)" for i
    by (simp add: clickEntry_def)
  show ?thesis
    unfolding Let_def using p c select_blur_commit select_commit by simp
qed

theorem enter_selects_witness:
  "trim (query highlighted_second) \<noteq> [] \<and> results highlighted_second \<noteq> []
   \<and> selectedIndex highlighted_second = 1
   \<and> (\<exists>s'. pressKey ''Enter'' highlighted_second = Inr (s', True)
         \<and> query s' = ''Mango'' \<and> \<not> isFocused s' \<and> selectedIndex s' = - 1
         \<and> selected s' = [\<lparr>id_of = ''mango'', value_of = ''Mango''\<rparr>])"
proof -
  have h: "trim (query highlighted_second) \<noteq> []" "results highlighted_second \<noteq> []"
    "selectedIndex highlighted_second < int (length (results highlighted_second))"
    by (simp_all add: highlighted_second_eval results_def trim_examples)
  have e: "selectedIndex highlighted_second = 1" "selected highlighted_second = []"
    "results highlighted_second ! nat 1 = \<lparr>id_of = ''mango'', value_of = ''Mango''\<rparr>"
    by (simp_all add: highlighted_second_eval results_def)
  let ?s = "commit highlighted_second (blurInput (handleSelect
               \<lparr>id_of = ''mango'', value_of = ''Mango''\<rparr> highlighted_second))"
  from enter_selects [OF h]
  have "pressKey ''Enter'' highlighted_second = Inr (?s, True)
      \<and> query ?s = ''Mango'' \<and> \<not> isFocused ?s \<and> selectedIndex ?s = - 1
      \<and> selected ?s = [\<lparr>id_of = ''mango'', value_of = ''Mango''\<rparr>]"
    unfolding Let_def e by simp
  with h(1,2) e(1) show ?thesis
    by blast
qed

text \<open>
  C4 as it is written asks for a non-empty results list only. The guard of the handler also
  asks for a query text that is not empty after trimming: with the input emptied and the
  results of an earlier request stored, Enter returns at the guard and selects nothing.
\<close>

theorem enter_guard_counterexample:
  "results stale_results \<noteq> [] \<and> selectedIndex stale_results = - 1
   \<and> selected stale_results = []
   \<and> pressKey ''Enter'' stale_results = Inr (stale_results, False)"
proof -
  have "trim (query stale_results) = []"
    by (simp add: stale_results_eval trim_examples)
  then have "pressKey ''Enter'' stale_results = Inr (stale_results, False)"
    by (simp add: pressKey_guard)
  then show ?thesis
    by (simp add: stale_results_eval results_def)
qed

text \<open>
  C5, as amended. A response of three entries arrives while the query text is not empty
  after trimming: the highlight is \<open>-1\<close>. The first ArrowDown moves it to 0, the second to 1,
  the third to 2, the last index, and a fourth leaves it at 2.
\<close>

theorem arrow_down_from_reset:
  assumes "trim (query s) \<noteq> []" and "length rs = 3"
  shows "selectedIndex (respond rs s) = - 1
     \<and> selectedIndex (run [Respond rs, KeyDown ''ArrowDown''] s) = 0
     \<and> selectedIndex (run [Respond rs, KeyDown ''ArrowDown'', KeyDown ''ArrowDown''] s) = 1
     \<and> selectedIndex (run [Respond rs, KeyDown ''ArrowDown'', KeyDown ''ArrowDown'',
                             KeyDown ''ArrowDown''] s) = 2
     \<and> selectedIndex (run [Respond rs, KeyDown ''ArrowDown'', KeyDown ''ArrowDown'',
                             KeyDown ''ArrowDown'', KeyDown ''ArrowDown''] s) = 2"
proof -
  define s0 where "s0 = respond rs s"
  have f0: "trim (query s0) \<noteq> []" "results s0 \<noteq> []" "dataDep s0 = data s0"
    "selectedIndex s0 = - 1" "length (results s0) = 3"
    using assms by (auto simp: s0_def respond_def resetEffect_def results_def)
  define s1 where "s1 = step (KeyDown ''ArrowDown'') s0"
  have e1: "s1 = s0\<lparr>selectedIndex := 0\<rparr>"
    unfolding s1_def step_ArrowDown [OF f0(1,2,3)] using f0(4,5) by simp
  have f1: "trim (query s1) \<noteq> []" "results s1 \<noteq> []" "dataDep s1 = data s1"
    "selectedIndex s1 = 0" "length (results s1) = 3"
    using f0 by (simp_all add: e1 results_def)
  define s2 where "s2 = step (KeyDown ''ArrowDown'') s1"
  have e2: "s2 = s1\<lparr>selectedIndex := 1\<rparr>"
    unfolding s2_def step_ArrowDown [OF f1(1,2,3)] using f1(4,5) by simp
  have f2: "trim (query s2) \<noteq> []" "results s2 \<noteq> []" "dataDep s2 = data s2"
    "selectedIndex s2 = 1" "length (results s2) = 3"
    using f1 by (simp_all add: e2 results_def)
  define s3 where "s3 = step (KeyDown ''ArrowDown'') s2"
  have e3: "s3 = s2\<lparr>selectedIndex := 2\<rparr>"
    unfolding s3_def step_ArrowDown [OF f2(1,2,3)] using f2(4,5) by simp
  have f3: "trim (query s3) \<noteq> []" "results s3 \<noteq> []" "dataDep s3 = data s3"
    "selectedIndex s3 = 2" "length (results s3) = 3"
    using f2 by (simp_all add: e3 results_def)
  define s4 where "s4 = step (KeyDown ''ArrowDown'') s3"
  have e4: "s4 = s3"
    unfolding s4_def step_ArrowDown [OF f3(1,2,3)] using f3(4,5) by simp
  have r: "run [Respond rs, KeyDown ''ArrowDown''] s = s1"
    "run [Respond rs, KeyDown ''ArrowDown'', KeyDown ''ArrowDown''] s = s2"
    "run [Respond rs, KeyDown ''ArrowDown'', KeyDown ''ArrowDown'', KeyDown ''ArrowDown''] s = s3"
    "run [Respond rs, KeyDown ''ArrowDown'', KeyDown ''ArrowDown'', KeyDown ''ArrowDown'',
          KeyDown ''ArrowDown''] s = s4"
    by (simp_all only: run.simps step.simps(7) s0_def s1_def s2_def s3_def s4_def)
  show ?thesis
    unfolding r using f0 f1 f2 f3 e4 by (simp add: s0_def)
qed

theorem arrow_down_from_reset_witness:
  "trim (query awaiting_response) \<noteq> []
   \<and> length (payload (loader (Some ''an''))) = 3
   \<and> selectedIndex (run [Respond (payload (loader (Some ''an''))), KeyDown ''ArrowDown'',
                          KeyDown ''ArrowDown''] awaiting_response) = 1
   \<and> selectedIndex (run [Respond (payload (loader (Some ''an''))), KeyDown ''ArrowDown'',
                          KeyDown ''ArrowDown'', KeyDown ''ArrowDown''] awaiting_response) = 2"
proof -
  have h: "trim (query awaiting_response) \<noteq> []"
    by (simp add: awaiting_response_eval trim_examples)
  have l: "length (payload (loader (Some ''an''))) = 3"
    by (simp add: loader_an)
  from arrow_down_from_reset [OF h l] h l show ?thesis
    by blast
qed

text \<open>
  C5 as it is written has the highlight at 2 after two presses. The reset state is \<open>-1\<close>, not
  0: after the response for \<^verbatim>\<open>an\<close> (three entries) two presses give 1. And with the input
  emptied before the three entries arrived, the two presses return at the guard and the
  highlight stays \<open>-1\<close>.
\<close>

theorem arrow_down_twice_counterexample:
  "length (results three_results) = 3 \<and> selectedIndex three_results = - 1
   \<and> selectedIndex (run [KeyDown ''ArrowDown'', KeyDown ''ArrowDown''] three_results) = 1
   \<and> length (results stale_results) = 3 \<and> selectedIndex stale_results = - 1
   \<and> run [KeyDown ''ArrowDown'', KeyDown ''ArrowDown''] stale_results = stale_results"
proof -
  have "trim (query stale_results) = []"
    by (simp add: stale_results_eval trim_examples)
  then have "pressKey ''ArrowDown'' stale_results = Inr (stale_results, False)"
    by (simp add: pressKey_guard)
  then have "run [KeyDown ''ArrowDown'', KeyDown ''ArrowDown''] stale_results = stale_results"
    by simp
  then show ?thesis
    unfolding highlighted_second_def [symmetric]
    by (simp add: three_results_eval highlighted_second_eval stale_results_eval results_def)
qed

text \<open>
  C6, as amended. With a query text that is not empty after trimming, a results list of
  length \<open>n > 0\<close> and any highlight \<open>i\<close>: ArrowDown sets the highlight to \<open>i + 1\<close> unless that is
  past \<open>n - 1\<close>, and then leaves it at \<open>i\<close>; ArrowUp sets it to \<open>i - 1\<close> unless that is below
  0, and then leaves it at \<open>i\<close>. So the highlight never moves back on ArrowDown, never moves
  past the last index, never moves forward on ArrowUp, an index stays an index (0 stays 0)
  and none stays none. Both keys suppress their default and change no other field; the
  render that follows keeps the new highlight when it has seen the stored results.
\<close>

theorem arrows_clamped:
  assumes "trim (query s) \<noteq> []" and "results s \<noteq> []"
  shows "let i = selectedIndex s; n = int (length (results s));
             d = (if i + 1 \<le> n - 1 then i + 1 else i);
             u = (if 0 \<le> i - 1 then i - 1 else i)
         in handleKeyDown ''ArrowDown'' s = Inr (s\<lparr>selectedIndex := d\<rparr>, True)
            \<and> handleKeyDown ''ArrowUp'' s = Inr (s\<lparr>selectedIndex := u\<rparr>, True)
            \<and> i \<le> d \<and> d \<le> i + 1 \<and> (i \<le> n - 1 \<longrightarrow> d \<le> n - 1)
            \<and> i - 1 \<le> u \<and> u \<le> i \<and> (0 \<le> i \<longrightarrow> 0 \<le> u) \<and> (i = - 1 \<longrightarrow> u = - 1)
            \<and> (dataDep s = data s \<longrightarrow>
                  pressKey ''ArrowDown'' s = Inr (s\<lparr>selectedIndex := d\<rparr>, True)
                  \<and> pressKey ''ArrowUp'' s = Inr (s\<lparr>selectedIndex := u\<rparr>, True))"
proof -
  have d: "(if selectedIndex s < int (length (results s)) - 1 then selectedIndex s + 1
            else selectedIndex s) =
           (if selectedIndex s + 1 \<le> int (length (results s)) - 1 then selectedIndex s + 1
            else selectedIndex s)"
    by simp
  have u: "(if selectedIndex s > 0 then selectedIndex s - 1 else selectedIndex s) =
           (if 0 \<le> selectedIndex s - 1 then selectedIndex s - 1 else selectedIndex s)"
    by simp
  have hd: "handleKeyDown ''ArrowDown'' s =
      Inr (s\<lparr>selectedIndex := (if selectedIndex s + 1 \<le> int (length (results s)) - 1
                                then selectedIndex s + 1 else selectedIndex s)\<rparr>, True)"
    using handle_ArrowDown [OF assms] by (simp only: d)
  have hu: "handleKeyDown ''ArrowUp'' s =
      Inr (s\<lparr>selectedIndex := (if 0 \<le> selectedIndex s - 1 then selectedIndex s - 1
                                else selectedIndex s)\<rparr>, True)"
    using handle_ArrowUp [OF assms] by (simp only: u)
  have pd: "dataDep s = data s \<Longrightarrow> pressKey ''ArrowDown'' s = handleKeyDown ''ArrowDown'' s"
    unfolding pressKey_def hd by (simp add: commit_clean)
  have pu: "dataDep s = data s \<Longrightarrow> pressKey ''ArrowUp'' s = handleKeyDown ''ArrowUp'' s"
    unfolding pressKey_def hu by (simp add: commit_clean)
  show ?thesis
    unfolding Let_def using hd hu pd pu by auto
qed

theorem arrows_clamped_witness:
  "trim (query highlighted_second) \<noteq> [] \<and> results highlighted_second \<noteq> []
   \<and> selectedIndex highlighted_second = 1 \<and> length (results highlighted_second) = 3
   \<and> pressKey ''ArrowDown'' highlighted_second
       = Inr (highlighted_second\<lparr>selectedIndex := 2\<rparr>, True)
   \<and> pressKey ''ArrowUp'' highlighted_second
       = Inr (highlighted_second\<lparr>selectedIndex := 0\<rparr>, True)
   \<and> pressKey ''ArrowDown'' (highlighted_second\<lparr>selectedIndex := 2\<rparr>)
       = Inr (highlighted_second\<lparr>selectedIndex := 2\<rparr>, True)
   \<and> pressKey ''ArrowUp'' (highlighted_second\<lparr>selectedIndex := 0\<rparr>)
       = Inr (highlighted_second\<lparr>selectedIndex := 0\<rparr>, True)
   \<and> pressKey ''ArrowUp'' three_results = Inr (three_results, True)"
proof -
  have h: "trim (query highlighted_second) \<noteq> []" "results highlighted_second \<noteq> []"
    by (simp_all add: highlighted_second_eval results_def trim_examples)
  have e: "selectedIndex highlighted_second = 1" "length (results highlighted_second) = 3"
    "dataDep highlighted_second = data highlighted_second"
    by (simp_all add: highlighted_second_eval results_def)
  have a: "pressKey ''ArrowDown'' highlighted_second
             = Inr (highlighted_second\<lparr>selectedIndex := 2\<rparr>, True)
         \<and> pressKey ''ArrowUp'' highlighted_second
             = Inr (highlighted_second\<lparr>selectedIndex := 0\<rparr>, True)"
    using arrows_clamped [OF h] e by (simp add: Let_def)
  let ?top = "highlighted_second\<lparr>selectedIndex := 2\<rparr>"
  have ht: "trim (query ?top) \<noteq> []" "results ?top \<noteq> []"
    using h by (simp_all add: results_def)
  have et: "selectedIndex ?top = 2" "length (results ?top) = 3" "dataDep ?top = data ?top"
    using e by (simp_all add: results_def)
  have b: "pressKey ''ArrowDown'' ?top = Inr (?top, True)"
    using arrows_clamped [OF ht] et by (simp add: Let_def)
  let ?bot = "highlighted_second\<lparr>selectedIndex := 0\<rparr>"
  have hb: "trim (query ?bot) \<noteq> []" "results ?bot \<noteq> []"
    using h by (simp_all add: results_def)
  have eb: "selectedIndex ?bot = 0" "length (results ?bot) = 3" "dataDep ?bot = data ?bot"
    using e by (simp_all add: results_def)
  have c: "pressKey ''ArrowUp'' ?bot = Inr (?bot, True)"
    using arrows_clamped [OF hb] eb by (simp add: Let_def)
  have hn: "trim (query three_results) \<noteq> []" "results three_results \<noteq> []"
    by (simp_all add: three_results_eval results_def trim_examples)
  have en: "selectedIndex three_results = - 1" "dataDep three_results = data three_results"
    by (simp_all add: three_results_eval)
  have d: "pressKey ''ArrowUp'' three_results = Inr (three_results, True)"
    using arrows_clamped [OF hn] en by (simp add: Let_def)
  from h e(1,2) a b c d show ?thesis
    by blast
qed

text \<open>
  C6 as it is written asks for a non-empty results list only. With the input emptied and
  the results of an earlier request stored, both arrow keys return at the guard: the
  highlight does not move although the list has room.
\<close>

theorem arrow_guard_counterexample:
  "results stale_results \<noteq> [] \<and> selectedIndex stale_results = - 1
   \<and> selectedIndex stale_results + 1 \<le> int (length (results stale_results)) - 1
   \<and> pressKey ''ArrowDown'' stale_results = Inr (stale_results, False)
   \<and> pressKey ''ArrowUp'' stale_results = Inr (stale_results, False)"
proof -
  have "trim (query stale_results) = []"
    by (simp add: stale_results_eval trim_examples)
  then have "pressKey ''ArrowDown'' stale_results = Inr (stale_results, False)"
    "pressKey ''ArrowUp'' stale_results = Inr (stale_results, False)"
    by (simp_all add: pressKey_guard)
  then show ?thesis
    by (simp add: stale_results_eval results_def)
qed

section \<open>The debounce\<close>

lemma onChange_fields:
  "query (onChange v s) = v" "requests (onChange v s) = requests s" "now (onChange v s) = now s"
  by (simp_all add: onChange_def commit_simps)

lemma onChange_debounce:
  "v \<noteq> query s \<Longrightarrow>
   debounce (onChange v s) = (if trim v = [] then None else Some (now s + 300, v))"
  by (simp add: onChange_def commit_debounce)

lemma onChange_data:
  "v \<noteq> query s \<Longrightarrow> trim v = [] \<Longrightarrow> data (onChange v s) = None"
  by (simp add: onChange_def commit_data)

lemma fireBlurTimers_fields:
  "query (fireBlurTimers s) = query s" "requests (fireBlurTimers s) = requests s"
  "now (fireBlurTimers s) = now s" "debounce (fireBlurTimers s) = debounce s"
  by (simp_all add: fireBlurTimers_def Let_def commit_simps)

lemma advance_query: "query (advance d s) = query s"
  by (simp add: advance_def fireBlurTimers_fields fireDebounce_def split: option.split)

lemma advance_now: "now (advance d s) = now s + d"
  by (simp add: advance_def fireBlurTimers_fields fireDebounce_def split: option.split)

lemma advance_idle:
  "debounce s = None \<Longrightarrow> requests (advance d s) = requests s \<and> debounce (advance d s) = None"
  by (simp add: advance_def fireBlurTimers_fields fireDebounce_def)

lemma advance_early:
  "debounce s = Some (due, q) \<Longrightarrow> now s + d < due \<Longrightarrow>
   requests (advance d s) = requests s \<and> debounce (advance d s) = Some (due, q)"
  by (simp add: advance_def fireBlurTimers_fields fireDebounce_def)

lemma advance_due:
  "debounce s = Some (due, q) \<Longrightarrow> due \<le> now s + d \<Longrightarrow>
   requests (advance d s) = requests s @ [q] \<and> debounce (advance d s) = None"
  by (simp add: advance_def fireBlurTimers_fields fireDebounce_def)

lemma keystroke_quiet:
  assumes "debounce s = (if trim (query s) = [] then None else Some (t + 300, query s))"
    and "now s = t" and "gap < 300" and "v \<noteq> query s"
  shows "requests (onChange v (advance gap s)) = requests s
     \<and> query (onChange v (advance gap s)) = v
     \<and> debounce (onChange v (advance gap s)) =
         (if trim v = [] then None else Some (now (onChange v (advance gap s)) + 300, v))"
proof -
  have r: "requests (advance gap s) = requests s"
  proof (cases "trim (query s) = []")
    case True
    with assms(1) show ?thesis
      by (simp add: advance_idle)
  next
    case False
    with assms(1) have "debounce s = Some (t + 300, query s)"
      by simp
    moreover from assms(2,3) have "now s + gap < t + 300"
      by simp
    ultimately show ?thesis
      by (simp add: advance_early)
  qed
  from assms(4) have "v \<noteq> query (advance gap s)"
    by (simp add: advance_query)
  then show ?thesis
    using r by (simp add: onChange_fields onChange_debounce)
qed

lemma typing_quiet:
  assumes "debounce s = (if trim (query s) = [] then None else Some (now s + 300, query s))"
    and "\<forall>(gap, v) \<in> set ks. gap < 300" and "changing (query s) (map snd ks)"
  shows "requests (typing ks s) = requests s
     \<and> query (typing ks s) = last (query s # map snd ks)
     \<and> debounce (typing ks s) =
         (if trim (query (typing ks s)) = [] then None
          else Some (now (typing ks s) + 300, query (typing ks s)))"
  using assms
proof (induction ks arbitrary: s)
  case Nil
  then show ?case
    by simp
next
  case (Cons k ks)
  obtain gap v where k: "k = (gap, v)"
    by (cases k)
  let ?s = "onChange v (advance gap s)"
  from Cons.prems k have g: "gap < 300" and c: "v \<noteq> query s"
    and rest: "\<forall>(gap, v) \<in> set ks. gap < 300" and ch: "changing v (map snd ks)"
    by simp_all
  from keystroke_quiet [OF Cons.prems(1) refl g c]
  have q: "requests ?s = requests s" "query ?s = v"
    "debounce ?s = (if trim (query ?s) = [] then None else Some (now ?s + 300, query ?s))"
    by simp_all
  from ch q(2) have "changing (query ?s) (map snd ks)"
    by simp
  from Cons.IH [OF q(3) rest this] q show ?case
    by (simp add: k)
qed

lemma settle:
  assumes "debounce s = (if trim (query s) = [] then None else Some (now s + 300, query s))"
  shows "requests (advance d s) =
     requests s @ (if trim (query s) \<noteq> [] \<and> 300 \<le> d then [query s] else [])"
proof (cases "trim (query s) = []")
  case True
  with assms show ?thesis
    by (simp add: advance_idle)
next
  case False
  with assms have p: "debounce s = Some (now s + 300, query s)"
    by simp
  show ?thesis
  proof (cases "300 \<le> d")
    case True
    then have "now s + 300 \<le> now s + d"
      by simp
    from advance_due [OF p this] False True show ?thesis
      by simp
  next
    case False
    then have "now s + d < now s + 300"
      by simp
    from advance_early [OF p this] False show ?thesis
      by simp
  qed
qed

text \<open>
  C3. A keystroke is a change of the input's text (\<^verbatim>\<open>onChange\<close> with a text that differs from
  the current one). The first keystroke \<open>v\<close> comes in any state \<open>s\<close>; each later one comes
  less than 300ms after the one before it; after the last one the user waits \<open>d\<close> ms. No
  load is asked for while the user types, whatever timeout was pending in \<open>s\<close>; after the
  wait the widget has asked for at most one load, for the text of the last keystroke: one
  when that text is not empty after trimming and \<open>d\<close> is at least 300, none otherwise. A
  keystroke replaces the pending timeout by one that is due 300ms later and holds the new
  text (by none when the new text is empty after trimming).
\<close>

theorem debounce_single_request:
  assumes "changing (query s) (v # map snd ks)" and "\<forall>(gap, w) \<in> set ks. gap < 300"
  shows "requests (typing ks (onChange v s)) = requests s
     \<and> requests (advance d (typing ks (onChange v s))) =
         requests s @ (if trim (last (v # map snd ks)) \<noteq> [] \<and> 300 \<le> d
                       then [last (v # map snd ks)] else [])
     \<and> debounce (onChange v s) = (if trim v = [] then None else Some (now s + 300, v))"
proof -
  let ?s = "onChange v s"
  from assms(1) have c: "v \<noteq> query s" and ch: "changing (query ?s) (map snd ks)"
    by (simp_all add: onChange_fields)
  have a: "debounce ?s = (if trim (query ?s) = [] then None else Some (now ?s + 300, query ?s))"
    using c by (simp add: onChange_fields onChange_debounce)
  from typing_quiet [OF a assms(2) ch]
  have t: "requests (typing ks ?s) = requests s"
    "query (typing ks ?s) = last (v # map snd ks)"
    "debounce (typing ks ?s) =
       (if trim (query (typing ks ?s)) = [] then None
        else Some (now (typing ks ?s) + 300, query (typing ks ?s)))"
    by (simp_all add: onChange_fields)
  from settle [OF t(3), of d] t(1,2) c show ?thesis
    by (simp add: onChange_debounce)
qed

theorem debounce_single_request_witness:
  "requests (typing [(100, ''an''), (120, ''ana'')] (onChange ''a'' init)) = []
   \<and> requests (advance 299 (typing [(100, ''an''), (120, ''ana'')] (onChange ''a'' init))) = []
   \<and> requests (advance 300 (typing [(100, ''an''), (120, ''ana'')] (onChange ''a'' init)))
       = [''ana'']
   \<and> requests (advance 300 (typing [(100, ''an''), (120, [])] (onChange ''a'' init))) = []"
proof -
  have c: "changing (query init) (''a'' # map snd [(100 :: nat, ''an''), (120, ''ana'')])"
    "changing (query init) (''a'' # map snd [(100 :: nat, ''an''), (120, [])])"
    by (simp_all add: init_def)
  have g: "\<forall>(gap, w) \<in> set [(100 :: nat, ''an''), (120, ''ana'')]. gap < 300"
    "\<forall>(gap, w) \<in> set [(100 :: nat, ''an''), (120, [])]. gap < 300"
    by simp_all
  have r: "requests init = []"
    by (simp add: init_def)
  from debounce_single_request [OF c(1) g(1), of 299]
    debounce_single_request [OF c(1) g(1), of 300]
    debounce_single_request [OF c(2) g(2), of 300] r
  show ?thesis
    by (simp add: trim_examples)
qed

text \<open>
  C8. When a keystroke leaves a text that is empty after trimming, then at once (the clock
  has not moved) no results are stored and no timeout is pending, and however long the
  user waits afterwards, no load is asked for. The same holds for every update of the query
  text to such a text, since all of them reach the effect through \<^const>\<open>commit\<close>.
\<close>

theorem empty_query_clears:
  assumes "v \<noteq> query s" and "trim v = []"
  shows "data (onChange v s) = None \<and> results (onChange v s) = []
     \<and> debounce (onChange v s) = None \<and> now (onChange v s) = now s
     \<and> requests (onChange v s) = requests s
     \<and> (\<forall>d. requests (advance d (onChange v s)) = requests s)
     \<and> (\<forall>old new. query new \<noteq> query old \<and> trim (query new) = [] \<longrightarrow>
           data (commit old new) = None \<and> debounce (commit old new) = None
           \<and> now (commit old new) = now new)"
  using assms
  by (simp add: onChange_fields onChange_debounce onChange_data results_def advance_idle
      commit_simps)

theorem empty_query_clears_witness:
  "[] \<noteq> query pending_request \<and> trim [] = []
   \<and> results pending_request \<noteq> [] \<and> debounce pending_request = Some (600, ''ana'')
   \<and> now pending_request = 400
   \<and> data (onChange [] pending_request) = None
   \<and> debounce (onChange [] pending_request) = None
   \<and> now (onChange [] pending_request) = 400
   \<and> (\<forall>d. requests (advance d (onChange [] pending_request)) = [''an''])"
proof -
  have h: "[] \<noteq> query pending_request" "trim [] = []"
    by (simp_all add: pending_request_eval trim_examples)
  have e: "results pending_request \<noteq> []" "debounce pending_request = Some (600, ''ana'')"
    "now pending_request = 400" "requests pending_request = [''an'']"
    by (simp_all add: pending_request_eval results_def)
  from empty_query_clears [OF h] h e show ?thesis
    by simp
qed

section \<open>The highlight over a run\<close>

lemma highlightOk_renderPass: "highlightOk s \<Longrightarrow> highlightOk (renderPass qc s)"
  by (auto simp: highlightOk_def renderPass_def debounceEffect_def resetEffect_def Let_def
      split: option.splits)

lemma highlightOk_commit: "highlightOk new \<Longrightarrow> highlightOk (commit old new)"
  by (simp add: commit_def Let_def highlightOk_renderPass)

lemma highlightOk_handleSelect: "highlightOk s \<Longrightarrow> highlightOk (handleSelect g s)"
  by (auto simp: highlightOk_def handleSelect_def split: option.splits)

lemma highlightOk_blurInput: "highlightOk s \<Longrightarrow> highlightOk (blurInput s)"
  by (auto simp: highlightOk_def blurInput_def split: option.splits)

lemma highlightOk_index:
  "highlightOk s \<Longrightarrow> results s \<noteq> [] \<Longrightarrow> selectedIndex s < int (length (results s))"
  by (auto simp: highlightOk_def results_def split: option.splits)

lemma highlightOk_set:
  "highlightOk s \<Longrightarrow> - 1 \<le> i \<Longrightarrow> i < int (length (results s)) \<Longrightarrow> results s \<noteq> [] \<Longrightarrow>
   highlightOk (s\<lparr>selectedIndex := i\<rparr>)"
  by (auto simp: highlightOk_def results_def split: option.splits)

lemma highlightOk_escape:
  "highlightOk s \<Longrightarrow> highlightOk (s\<lparr>isFocused := False, selectedIndex := - 1\<rparr>)"
  by (auto simp: highlightOk_def split: option.splits)

lemma highlightOk_handleKeyDown:
  assumes "highlightOk s"
  shows "\<exists>s' p. handleKeyDown key s = Inr (s', p) \<and> highlightOk s'"
proof (cases "trim (query s) = [] \<or> results s = []")
  case True
  then have "handleKeyDown key s = Inr (s, False)"
    unfolding handleKeyDown_def by (simp only: if_True)
  with assms show ?thesis
    by blast
next
  case False
  then have a: "trim (query s) \<noteq> []" "results s \<noteq> []"
    by simp_all
  note i = highlightOk_index [OF assms a(2)]
  from assms have l: "- 1 \<le> selectedIndex s"
    by (simp add: highlightOk_def)
  consider (down) "key = ''ArrowDown''" | (up) "key = ''ArrowUp''" | (enter) "key = ''Enter''"
    | (escape) "key = ''Escape''"
    | (other) "key \<noteq> ''ArrowDown''" "key \<noteq> ''ArrowUp''" "key \<noteq> ''Enter''" "key \<noteq> ''Escape''"
    by blast
  then show ?thesis
  proof cases
    case down
    have "highlightOk (s\<lparr>selectedIndex :=
        (if selectedIndex s < int (length (results s)) - 1 then selectedIndex s + 1
         else selectedIndex s)\<rparr>)"
      using i l by (intro highlightOk_set [OF assms _ _ a(2)]) simp_all
    then show ?thesis
      unfolding down handle_ArrowDown [OF a] by blast
  next
    case up
    have "highlightOk (s\<lparr>selectedIndex :=
        (if selectedIndex s > 0 then selectedIndex s - 1 else selectedIndex s)\<rparr>)"
      using i l by (intro highlightOk_set [OF assms _ _ a(2)]) simp_all
    then show ?thesis
      unfolding up handle_ArrowUp [OF a] by blast
  next
    case enter
    show ?thesis
      unfolding enter handle_Enter [OF a i]
      using highlightOk_blurInput [OF highlightOk_handleSelect [OF assms]] by blast
  next
    case escape
    show ?thesis
      unfolding escape handle_Escape [OF a]
      using highlightOk_blurInput [OF highlightOk_escape [OF assms]] by blast
  next
    case other
    then have "handleKeyDown key s = Inr (s, False)"
      by (simp only: handle_active [OF a] if_False)
    with assms show ?thesis
      by blast
  qed
qed

lemma highlightOk_pressKey:
  assumes "highlightOk s"
  shows "\<exists>s' p. pressKey key s = Inr (s', p) \<and> highlightOk s'"
proof -
  from highlightOk_handleKeyDown [OF assms, of key]
  obtain s' p where "handleKeyDown key s = Inr (s', p)" and "highlightOk s'"
    by blast
  then have "pressKey key s = Inr (commit s s', p)" and "highlightOk (commit s s')"
    by (simp_all add: pressKey_def highlightOk_commit)
  then show ?thesis
    by blast
qed

lemma highlightOk_advance: "highlightOk s \<Longrightarrow> highlightOk (advance d s)"
proof -
  assume h: "highlightOk s"
  have n: "highlightOk (s\<lparr>now := now s + d\<rparr>)"
    using h by (auto simp: highlightOk_def split: option.splits)
  have f: "highlightOk t \<Longrightarrow> highlightOk (fireDebounce t)" for t
    by (auto simp: highlightOk_def fireDebounce_def split: option.splits)
  have b: "highlightOk t \<Longrightarrow> highlightOk (fireBlurTimers t)" for t
  proof -
    assume t: "highlightOk t"
    have "highlightOk (t\<lparr>blurTimers := ts, isFocused := False\<rparr>)" for ts
      using t by (auto simp: highlightOk_def split: option.splits)
    then show ?thesis
      by (simp add: fireBlurTimers_def Let_def highlightOk_commit t)
  qed
  show ?thesis
    unfolding advance_def by (intro b f n)
qed

lemma highlightOk_step: "highlightOk s \<Longrightarrow> highlightOk (step e s)"
proof (cases e)
  case (Change v)
  assume h: "highlightOk s"
  have "highlightOk (s\<lparr>query := v\<rparr>)"
    using h by (auto simp: highlightOk_def split: option.splits)
  then show ?thesis
    by (simp add: Change onChange_def highlightOk_commit)
next
  case (KeyDown k)
  assume h: "highlightOk s"
  from highlightOk_pressKey [OF h, of k] show ?thesis
    by (auto simp: KeyDown)
next
  case Focus
  assume h: "highlightOk s"
  have "highlightOk (s\<lparr>inputFocused := True, isFocused := True\<rparr>)"
    using h by (auto simp: highlightOk_def split: option.splits)
  then show ?thesis
    by (simp add: Focus onFocus_def highlightOk_commit)
next
  case Blur
  assume h: "highlightOk s"
  then show ?thesis
    by (simp add: Blur highlightOk_blurInput)
next
  case (Click i)
  assume h: "highlightOk s"
  then show ?thesis
    by (simp add: Click clickEntry_def highlightOk_commit highlightOk_handleSelect)
next
  case (Advance d)
  assume h: "highlightOk s"
  then show ?thesis
    by (simp add: Advance highlightOk_advance)
next
  case (Respond rs)
  show ?thesis
    by (simp add: Respond respond_def resetEffect_def highlightOk_def)
qed

lemma reachable_highlightOk: "reachable s \<Longrightarrow> highlightOk s"
proof (induction rule: reachable.induct)
  case reachable_init
  show ?case
    by (simp add: highlightOk_def init_def)
next
  case (reachable_step s e)
  then show ?case
    by (simp add: highlightOk_step)
qed

lemma reachable_run: "reachable s \<Longrightarrow> reachable (run es s)"
  by (induction es arbitrary: s) (simp_all add: reachable_step)

lemma reachable_index_valid:
  assumes "reachable s" and "data s = Some rs"
  shows "selectedIndex s = - 1 \<or> (0 \<le> selectedIndex s \<and> selectedIndex s < int (length rs))"
  using reachable_highlightOk [OF assms(1)] assms(2) by (auto simp: highlightOk_def)

lemma reachable_no_error: "reachable s \<Longrightarrow> pressKey key s \<noteq> Inl e"
  using highlightOk_pressKey [OF reachable_highlightOk, of s key] by auto

lemma respond_resets:
  "data (respond rs s) = Some rs \<and> selectedIndex (respond rs s) = - 1"
  by (simp add: respond_def resetEffect_def)

lemma next_render_resets:
  assumes "data s \<noteq> dataDep s" and "v \<noteq> query s"
  shows "selectedIndex (onChange v s) = - 1"
  using assms by (simp add: onChange_def effect_defs)

text \<open>
  C7, at the session that breaks it. The response for \<^verbatim>\<open>an\<close> has arrived, ArrowDown has
  highlighted the first entry, and the user empties the input. The effect of lines 35-39
  assigns \<^verbatim>\<open>undefined\<close> to \<^verbatim>\<open>fetcher.data\<close> after the render has built the dependency array of
  the effect of lines 51-53, so that effect does not run: the state is reachable, it stores
  no results, and its highlight is still 0. (The lemmas above give what does hold: while
  results are stored the highlight is none or an index of them, a response always resets
  it, and the render after the clearing resets it too.)
\<close>

theorem highlight_survives_clearing:
  "reachable three_results \<and> results three_results \<noteq> []
   \<and> selectedIndex (run [KeyDown ''ArrowDown''] three_results) = 0
   \<and> reachable cleared_with_highlight
   \<and> data cleared_with_highlight = None \<and> results cleared_with_highlight = []
   \<and> selectedIndex cleared_with_highlight = 0"
proof -
  have r: "reachable three_results"
    unfolding three_results_def awaiting_response_def
    by (intro reachable_run reachable_init)
  then have c: "reachable cleared_with_highlight"
    unfolding cleared_with_highlight_def by (rule reachable_run)
  have a: "trim (query three_results) \<noteq> []" "results three_results \<noteq> []"
    "dataDep three_results = data three_results"
    by (simp_all add: three_results_eval results_def trim_examples)
  have d: "selectedIndex (run [KeyDown ''ArrowDown''] three_results) = 0"
    unfolding run.simps step_ArrowDown [OF a]
    by (simp add: three_results_eval results_def)
  from r c a(2) d show ?thesis
    by (simp add: cleared_with_highlight_eval results_def)
qed

end
